theory Spec2Isabelle
  imports Main "HOL-Library.Multiset"
begin

section \<open>Data model\<close>

text \<open>
  The \<open>users\<close> table of the shared schema.  Timestamps are milliseconds since the
  epoch (what \<open>Date.getTime()\<close> returns); a nullable column is an \<open>option\<close>.
  At run time \<open>role\<close> is a string: \<open>migrate.ts\<close> creates the column as
  \<open>VARCHAR(255)\<close>, the registration of \<open>auth-simple.ts\<close> hands the request body
  to \<open>createUser\<close> as it came, and the permission check itself guards against a
  missing role; so the field is an optional string here.
\<close>

datatype AccountStatus = Active | Locked | Suspended | Inactive

record User =
  id' :: nat
  username :: string
  password :: string
  email :: string
  bio :: "string option"
  role :: "string option"
  createdAt :: "int option"
  lastLogin :: "int option"
  failedLoginAttempts :: "int option"
  accountStatus :: AccountStatus
  passwordResetToken :: "string option"
  passwordResetExpires :: "int option"
  lastPasswordReset :: "int option"

section \<open>Role based access control\<close>

datatype Resource = USERS | GAMES | CATEGORIES | DOWNLOAD_LINKS | SYSTEM_SETTINGS

datatype Operation = CREATE | READ | UPDATE | DELETE | APPROVE | REJECT | PUBLISH | MANAGE

fun resource_value :: "Resource \<Rightarrow> string" where
  "resource_value USERS = ''users''"
| "resource_value GAMES = ''games''"
| "resource_value CATEGORIES = ''categories''"
| "resource_value DOWNLOAD_LINKS = ''download_links''"
| "resource_value SYSTEM_SETTINGS = ''system_settings''"

fun operation_value :: "Operation \<Rightarrow> string" where
  "operation_value CREATE = ''create''"
| "operation_value READ = ''read''"
| "operation_value UPDATE = ''update''"
| "operation_value DELETE = ''delete''"
| "operation_value APPROVE = ''approve''"
| "operation_value REJECT = ''reject''"
| "operation_value PUBLISH = ''publish''"
| "operation_value MANAGE = ''manage''"

text \<open>A permission is the template string \<open>resource.operation\<close>.\<close>

definition perm :: "Resource \<Rightarrow> Operation \<Rightarrow> string" where
  "perm r ope = resource_value r @ ''.'' @ operation_value ope"

definition adminPermissions :: "string list" where
  "adminPermissions =
    [perm USERS CREATE, perm USERS READ, perm USERS UPDATE, perm USERS DELETE,
     perm USERS MANAGE,
     perm GAMES CREATE, perm GAMES READ, perm GAMES UPDATE, perm GAMES DELETE,
     perm GAMES APPROVE, perm GAMES REJECT, perm GAMES PUBLISH, perm GAMES MANAGE,
     perm CATEGORIES CREATE, perm CATEGORIES READ, perm CATEGORIES UPDATE,
     perm CATEGORIES DELETE, perm CATEGORIES MANAGE,
     perm DOWNLOAD_LINKS CREATE, perm DOWNLOAD_LINKS READ, perm DOWNLOAD_LINKS UPDATE,
     perm DOWNLOAD_LINKS DELETE, perm DOWNLOAD_LINKS MANAGE,
     perm SYSTEM_SETTINGS READ, perm SYSTEM_SETTINGS UPDATE, perm SYSTEM_SETTINGS MANAGE]"

definition userPermissions :: "string list" where
  "userPermissions =
    [perm USERS READ,
     perm GAMES CREATE, perm GAMES READ, perm GAMES UPDATE, perm GAMES DELETE,
     perm GAMES PUBLISH,
     perm CATEGORIES READ,
     perm DOWNLOAD_LINKS CREATE, perm DOWNLOAD_LINKS READ, perm DOWNLOAD_LINKS UPDATE,
     perm DOWNLOAD_LINKS DELETE]"

text \<open>
  \<open>rolePermissions\<close> is an object literal, so the read \<open>rolePermissions[userRole]\<close>
  first looks at the two own keys and then walks to \<open>Object.prototype\<close>.  A key found
  there yields a function (or, for \<open>__proto__\<close>, the prototype object): a truthy value, so
  the \<open>|| []\<close> fallback is not taken, and one without an \<open>includes\<close> method.
\<close>

datatype Lookup = Own "string list" | Inherited | Undefined

definition objectPrototypeKeys :: "string list" where
  "objectPrototypeKeys =
    [''constructor'', ''__defineGetter__'', ''__defineSetter__'', ''hasOwnProperty'',
     ''__lookupGetter__'', ''__lookupSetter__'', ''isPrototypeOf'',
     ''propertyIsEnumerable'', ''toString'', ''valueOf'', ''__proto__'',
     ''toLocaleString'']"

definition rolePermissions :: "string \<Rightarrow> Lookup" where
  "rolePermissions key =
    (if key = ''admin'' then Own adminPermissions
     else if key = ''user'' then Own userPermissions
     else if key \<in> set objectPrototypeKeys then Inherited
     else Undefined)"

datatype JsError = TypeError

text \<open>
  \<open>hasPermission(user, permission)\<close>.  \<open>None\<close> is the anonymous caller; a missing or
  empty role is falsy and becomes \<open>'user'\<close>; an undefined table entry becomes the empty
  array; calling \<open>includes\<close> on an inherited value throws.
\<close>

definition hasPermission :: "User option \<Rightarrow> string \<Rightarrow> JsError + bool" where
  "hasPermission user permission =
    (case user of
       None \<Rightarrow> Inr False
     | Some u \<Rightarrow>
         (let userRole = (case role u of
                            None \<Rightarrow> ''user''
                          | Some r \<Rightarrow> if r = [] then ''user'' else r)
          in case rolePermissions userRole of
               Own permissions \<Rightarrow> Inr (permission \<in> set permissions)
             | Undefined \<Rightarrow> Inr False
             | Inherited \<Rightarrow> Inl TypeError))"

text \<open>A sample row, used where a concrete user is needed.\<close>

definition sampleUser :: User where
  "sampleUser =
    \<lparr> id' = 7, username = ''alice'', password = ''$argon2id$stored'',
      email = ''alice@example.com'', bio = None, role = Some ''user'',
      createdAt = Some 1000, lastLogin = Some 5000, failedLoginAttempts = Some 0,
      accountStatus = Active, passwordResetToken = None, passwordResetExpires = None,
      lastPasswordReset = None \<rparr>"

text \<open>Stand-ins for the Argon2 verification and hashing, for concrete runs.\<close>

definition sampleCompare :: "string \<Rightarrow> string \<Rightarrow> bool" where
  "sampleCompare supplied stored =
    (stored = ''$argon2id$stored'' \<and> supplied = ''correct-Horse1!'')"

definition sampleHash :: "string \<Rightarrow> string" where
  "sampleHash pw = ''$argon2id$'' @ pw"

section \<open>User record store\<close>

text \<open>
  The table is the list of its rows.  A \<open>select ... where\<close> destructured as
  \<open>[user]\<close> yields the first matching row or undefined; an \<open>update ... where id = ?\<close>
  rewrites every row with that id.  Store failures (the \<open>catch\<close> branches of the
  storage class) are outside the model.
\<close>

type_synonym Table = "User list"

definition updateWhereId :: "nat \<Rightarrow> (User \<Rightarrow> User) \<Rightarrow> Table \<Rightarrow> Table" where
  "updateWhereId uid f db = map (\<lambda>u. if id' u = uid then f u else u) db"

definition getUser :: "nat \<Rightarrow> Table \<Rightarrow> User option" where
  "getUser uid db = find (\<lambda>u. id' u = uid) db"

definition getUserByUsername :: "string \<Rightarrow> Table \<Rightarrow> User option" where
  "getUserByUsername name db = find (\<lambda>u. username u = name) db"

definition getUserByEmail :: "string \<Rightarrow> Table \<Rightarrow> User option" where
  "getUserByEmail mail db = find (\<lambda>u. email u = mail) db"

definition getUserByResetToken :: "string \<Rightarrow> Table \<Rightarrow> User option" where
  "getUserByResetToken token db = find (\<lambda>u. passwordResetToken u = Some token) db"

text \<open>
  \<open>COALESCE("failedLoginAttempts", 0) + 1\<close>.  The column is a 32-bit integer: when
  the sum would exceed 2147483647 the statement fails with "integer out of range",
  the storage method catches the error and returns false, and the table stays as it
  was (the login handler does not look at the returned value).
\<close>

definition INT4_MAX :: int where
  "INT4_MAX = 2147483647"

definition incrementLoginAttempt :: "nat \<Rightarrow> Table \<Rightarrow> Table" where
  "incrementLoginAttempt uid db =
    (if list_ex (\<lambda>u. id' u = uid
                      \<and> (case failedLoginAttempts u of None \<Rightarrow> 0 | Some n \<Rightarrow> n) + 1 > INT4_MAX) db
     then db
     else updateWhereId uid
            (\<lambda>u. u\<lparr>failedLoginAttempts :=
                      Some ((case failedLoginAttempts u of None \<Rightarrow> 0 | Some n \<Rightarrow> n) + 1)\<rparr>) db)"

definition resetUserLoginAttempts :: "nat \<Rightarrow> Table \<Rightarrow> Table" where
  "resetUserLoginAttempts uid db =
    updateWhereId uid (\<lambda>u. u\<lparr>failedLoginAttempts := Some 0\<rparr>) db"

definition updateUserLastLogin :: "nat \<Rightarrow> int \<Rightarrow> Table \<Rightarrow> Table" where
  "updateUserLastLogin uid date db = updateWhereId uid (\<lambda>u. u\<lparr>lastLogin := Some date\<rparr>) db"

definition updateUserAccountStatus :: "nat \<Rightarrow> AccountStatus \<Rightarrow> Table \<Rightarrow> Table" where
  "updateUserAccountStatus uid status db =
    updateWhereId uid (\<lambda>u. u\<lparr>accountStatus := status\<rparr>) db"

text \<open>\<open>resetPassword(userId, newPasswordHash)\<close>: one update statement, six columns.\<close>

definition resetPassword :: "nat \<Rightarrow> string \<Rightarrow> int \<Rightarrow> Table \<Rightarrow> Table" where
  "resetPassword uid newPasswordHash now db =
    updateWhereId uid
      (\<lambda>u. u\<lparr>password := newPasswordHash,
              passwordResetToken := None,
              passwordResetExpires := None,
              lastPasswordReset := Some now,
              failedLoginAttempts := Some 0,
              accountStatus := Active\<rparr>) db"

section \<open>Login and account lockout\<close>

definition MAX_LOGIN_ATTEMPTS :: int where
  "MAX_LOGIN_ATTEMPTS = 5"

definition ACCOUNT_LOCK_TIME_MS :: int where
  "ACCOUNT_LOCK_TIME_MS = 30 * 60 * 1000"

text \<open>
  The \<open>POST /api/login\<close> handler of \<open>setupAuth\<close> in \<open>auth.ts\<close>, the one with the
  per-account lockout.  (The routes module imports \<open>setupAuth\<close> from
  \<open>auth-simple.ts\<close>, whose login handler counts failures per client address only and
  never writes to the users table.)

  Its responses: 401 \<open>INVALID_CREDENTIALS\<close> (with the remaining
  attempts when the account exists), 403 \<open>ACCOUNT_LOCKED\<close> with the remaining minutes,
  403 \<open>ACCOUNT_SUSPENDED\<close>, 403 \<open>ACCOUNT_INACTIVE\<close>, 200 with the handler's user
  object (the body carries it without its password, and the token generated from it),
  and the error passed to \<open>next\<close> when the handler throws.
\<close>

datatype LoginResponse =
    InvalidCredentials "int option"
  | AccountLocked int
  | AccountSuspended
  | AccountInactive
  | LoginSuccess User
  | InternalError

text \<open>
  \<open>Math.ceil(a / b)\<close> on integers, \<open>b\<close> positive.  The handler computes in
  floating point, which agrees with this as long as \<open>a\<close> is a difference of two instants
  less than 250000 years apart.
\<close>

definition ceilDiv :: "int \<Rightarrow> int \<Rightarrow> int" where
  "ceilDiv a b = - ((- a) div b)"

definition lookupIdentifier :: "string \<Rightarrow> Table \<Rightarrow> User option" where
  "lookupIdentifier identifier db =
    (if CHR ''@'' \<in> set identifier then getUserByEmail identifier db
     else getUserByUsername identifier db)"

text \<open>
  The second half of the handler: the password comparison and what follows it.
  \<open>comparePasswords\<close> is the Argon2 verification of the credential service, a
  parameter here; \<open>user\<close> is the handler's local object, \<open>db\<close> the table, and
  \<open>now\<close> the clock reading \<open>new Date()\<close> that stamps \<open>lastLogin\<close>.
\<close>

definition checkPassword ::
  "(string \<Rightarrow> string \<Rightarrow> bool) \<Rightarrow> int \<Rightarrow> string \<Rightarrow> User \<Rightarrow> Table \<Rightarrow> LoginResponse \<times> Table" where
  "checkPassword comparePasswords now supplied user db =
    (if \<not> comparePasswords supplied (password user) then
       (let newAttempts = (case failedLoginAttempts user of None \<Rightarrow> 0 | Some n \<Rightarrow> n) + 1;
            db1 = incrementLoginAttempt (id' user) db
        in if newAttempts \<ge> MAX_LOGIN_ATTEMPTS then
             (AccountLocked 30,
              updateUserLastLogin (id' user) now
                (updateUserAccountStatus (id' user) Locked db1))
           else (InvalidCredentials (Some (MAX_LOGIN_ATTEMPTS - newAttempts)), db1))
     else
       (LoginSuccess user,
        updateUserLastLogin (id' user) now (resetUserLoginAttempts (id' user) db)))"

text \<open>
  The handler evaluates \<open>new Date()\<close> afresh wherever it needs the time, at most
  twice on any path: \<open>now1\<close> is the first reading of a run and \<open>now2\<close> the second.
  For a locked account the first reading decides whether the lock has expired and the
  second is the one subtracted for the remaining time, or, after an unlock, the one that
  stamps \<open>lastLogin\<close>.
\<close>

definition login ::
  "(string \<Rightarrow> string \<Rightarrow> bool) \<Rightarrow> int \<Rightarrow> int \<Rightarrow> string \<Rightarrow> string \<Rightarrow> Table
     \<Rightarrow> LoginResponse \<times> Table" where
  "login comparePasswords now1 now2 identifier supplied db =
    (case lookupIdentifier identifier db of
       None \<Rightarrow> (InvalidCredentials None, db)
     | Some user \<Rightarrow>
         (case accountStatus user of
            Locked \<Rightarrow>
              (case lastLogin user of
                 None \<Rightarrow> (InternalError, db)
               | Some t \<Rightarrow>
                   (let lockExpireTime = t + ACCOUNT_LOCK_TIME_MS
                    in if now1 < lockExpireTime then
                         (AccountLocked (ceilDiv (lockExpireTime - now2) (60 * 1000)), db)
                       else
                         checkPassword comparePasswords now2 supplied
                           (user\<lparr>accountStatus := Active, failedLoginAttempts := Some 0\<rparr>)
                           (resetUserLoginAttempts (id' user)
                              (updateUserAccountStatus (id' user) Active db))))
          | Suspended \<Rightarrow> (AccountSuspended, db)
          | Inactive \<Rightarrow> (AccountInactive, db)
          | Active \<Rightarrow> checkPassword comparePasswords now1 supplied user db))"

text \<open>
  A sequence of login attempts \<open>(time, password)\<close> on the account \<open>alice\<close>, each
  run so short that both of its clock readings give the same millisecond.
\<close>

definition loginRun :: "(int \<times> string) list \<Rightarrow> Table \<Rightarrow> LoginResponse list \<times> Table" where
  "loginRun attempts db =
     foldl (\<lambda>(rs, d) (now, pw). case login sampleCompare now now ''alice'' pw d of
              (r, d') \<Rightarrow> (rs @ [r], d')) ([], db) attempts"

section \<open>Password reset tokens\<close>

text \<open>
  The responses of the two reset routes: 400 "invalid parameters", 400 "invalid token"
  (empty path parameter), 400 "token invalid or expired", 200 "token valid" with the
  user id, 200 "password reset".
\<close>

datatype ResetResponse =
    InvalidParameters
  | InvalidToken
  | TokenExpiredOrInvalid
  | TokenValid nat
  | PasswordResetDone

text \<open>\<open>GET /api/reset-password/:token\<close>\<close>

definition validateResetToken :: "int \<Rightarrow> string \<Rightarrow> Table \<Rightarrow> ResetResponse" where
  "validateResetToken now token db =
    (if token = [] then InvalidToken
     else case getUserByResetToken token db of
            None \<Rightarrow> TokenExpiredOrInvalid
          | Some user \<Rightarrow>
              (case passwordResetExpires user of
                 None \<Rightarrow> TokenExpiredOrInvalid
               | Some expires \<Rightarrow>
                   if expires < now then TokenExpiredOrInvalid else TokenValid (id' user)))"

text \<open>
  \<open>POST /api/reset-password\<close>.  A body field that is absent or not a string is
  \<open>None\<close>.  \<open>hashPassword\<close> is the Argon2 hashing of the credential service, a
  parameter here.
\<close>

definition resetPasswordRoute ::
  "(string \<Rightarrow> string) \<Rightarrow> int \<Rightarrow> string option \<Rightarrow> string option \<Rightarrow> Table
     \<Rightarrow> ResetResponse \<times> Table" where
  "resetPasswordRoute hashPassword now token password' db =
    (case (token, password') of
       (Some tok, Some pw) \<Rightarrow>
         (if tok = [] \<or> pw = [] then (InvalidParameters, db)
          else case getUserByResetToken tok db of
                 None \<Rightarrow> (TokenExpiredOrInvalid, db)
               | Some user \<Rightarrow>
                   (case passwordResetExpires user of
                      None \<Rightarrow> (TokenExpiredOrInvalid, db)
                    | Some expires \<Rightarrow>
                        if expires < now then (TokenExpiredOrInvalid, db)
                        else (PasswordResetDone,
                              resetPassword (id' user) (hashPassword pw) now db)))
     | _ \<Rightarrow> (InvalidParameters, db))"

section \<open>Password policy\<close>

text \<open>
  Strings are lists of code units; the model covers passwords whose code units are below
  256, where \<open>toLowerCase\<close> maps \<open>A-Z\<close> and the Latin-1 capitals (\<open>0xC0-0xDE\<close>
  without \<open>0xD7\<close>) 32 places up and nothing else.
\<close>

definition charCode :: "char \<Rightarrow> int" where
  "charCode c = of_char c"

definition lowerChar :: "char \<Rightarrow> char" where
  "lowerChar c =
    (let n = charCode c
     in if (65 \<le> n \<and> n \<le> 90) \<or> (192 \<le> n \<and> n \<le> 222 \<and> n \<noteq> 215)
        then char_of (n + 32) else c)"

definition toLowerCase :: "string \<Rightarrow> string" where
  "toLowerCase s = map lowerChar s"

text \<open>The four character classes of the regular expressions.\<close>

definition isUpper :: "char \<Rightarrow> bool" where
  "isUpper c = (65 \<le> charCode c \<and> charCode c \<le> 90)"

definition isLower :: "char \<Rightarrow> bool" where
  "isLower c = (97 \<le> charCode c \<and> charCode c \<le> 122)"

definition isDigit :: "char \<Rightarrow> bool" where
  "isDigit c = (48 \<le> charCode c \<and> charCode c \<le> 57)"

definition isSpecial :: "char \<Rightarrow> bool" where
  "isSpecial c = (\<not> isUpper c \<and> \<not> isLower c \<and> \<not> isDigit c)"

record PasswordPolicy =
  minLength :: nat
  maxLength :: nat
  commonPasswords :: "string list"

text \<open>The singleton \<open>new PasswordPolicy()\<close>: the field initialisers, no options.\<close>

definition passwordPolicy :: PasswordPolicy where
  "passwordPolicy =
    \<lparr> minLength = 8, maxLength = 100,
      commonPasswords =
        [''123456'', ''123456789'', ''qwerty'', ''password'', ''12345'', ''qwerty123'',
         ''1q2w3e'', ''12345678'', ''111111'', ''1234567890'', ''senha'', ''admin'',
         ''welcome'', ''monkey'', ''login'', ''abc123'', ''starwars'', ''123123'',
         ''dragon'', ''passw0rd'', ''master'', ''hello'', ''freedom'', ''whatever'',
         ''senha123'', ''administrador'', ''123mudar'', ''adminadmin'', ''usuario'',
         ''controle'', ''futebol'', ''flamengo'', ''corinthians'', ''palmeiras'',
         ''brasil'', ''102030'', ''bemvindo'', ''portugal'', ''mudar123''] \<rparr>"

definition keyboardSequences :: "string list" where
  "keyboardSequences =
    [''qwertyuiop'', ''asdfghjkl'', ''zxcvbnm'',
     ''qazwsx'', ''wsxedc'', ''edcrfv'', ''rfvtgb'', ''tgbyhn'', ''yhnujm'',
     ''1qaz'', ''2wsx'', ''3edc'', ''4rfv'', ''5tgb'', ''6yhn'', ''7ujm'',
     ''123456789'', ''987654321'', ''abcdefghijklmnopqrstuvwxyz'']"

text \<open>\<open>s.includes(pattern)\<close>\<close>

fun includes' :: "string \<Rightarrow> string \<Rightarrow> bool" where
  "includes' [] pattern = (pattern = [])"
| "includes' (c # cs) pattern =
    (take (length pattern) (c # cs) = pattern \<or> includes' cs pattern)"

text \<open>
  The three scans of \<open>hasSimplePatterns\<close>, each over the indices
  \<open>0 \<le> i < length - 2\<close> (none when the length is below 3), on the lowercased password.
\<close>

definition keyboardLoop :: "string \<Rightarrow> bool" where
  "keyboardLoop lowerPassword =
    list_ex (\<lambda>seq. list_ex (\<lambda>i. includes' lowerPassword (take 3 (drop i seq)))
                         [0 ..< length seq - 2])
      keyboardSequences"

definition repetitionLoop :: "string \<Rightarrow> bool" where
  "repetitionLoop lowerPassword =
    list_ex (\<lambda>i. lowerPassword ! i = lowerPassword ! (i + 1)
                 \<and> lowerPassword ! i = lowerPassword ! (i + 2))
      [0 ..< length lowerPassword - 2]"

definition sequenceLoop :: "string \<Rightarrow> bool" where
  "sequenceLoop lowerPassword =
    list_ex (\<lambda>i. let c1 = charCode (lowerPassword ! i);
                     c2 = charCode (lowerPassword ! (i + 1));
                     c3 = charCode (lowerPassword ! (i + 2))
                 in (c2 = c1 + 1 \<and> c3 = c2 + 1) \<or> (c2 = c1 - 1 \<and> c3 = c2 - 1))
      [0 ..< length lowerPassword - 2]"

definition hasSimplePatterns :: "string \<Rightarrow> bool" where
  "hasSimplePatterns password' =
    (let lowerPassword = toLowerCase password'
     in keyboardLoop lowerPassword \<or> repetitionLoop lowerPassword
        \<or> sequenceLoop lowerPassword)"

text \<open>The eight messages that \<open>validate\<close> can push, in the order it pushes them.\<close>

datatype PolicyError =
    TooShort nat
  | TooLong nat
  | NoUppercase
  | NoLowercase
  | NoDigit
  | NoSpecial
  | CommonPassword
  | SimplePattern

record PasswordValidationResult =
  isValid :: bool
  errors :: "PolicyError list"

definition validate :: "PasswordPolicy \<Rightarrow> string \<Rightarrow> PasswordValidationResult" where
  "validate pol password' =
    (let errs =
       (if password' = [] \<or> length password' < minLength pol
        then [TooShort (minLength pol)] else [])
       @ (if password' \<noteq> [] \<and> length password' > maxLength pol
          then [TooLong (maxLength pol)] else [])
       @ (if password' \<noteq> [] \<and> \<not> list_ex isUpper password' then [NoUppercase] else [])
       @ (if password' \<noteq> [] \<and> \<not> list_ex isLower password' then [NoLowercase] else [])
       @ (if password' \<noteq> [] \<and> \<not> list_ex isDigit password' then [NoDigit] else [])
       @ (if password' \<noteq> [] \<and> \<not> list_ex isSpecial password' then [NoSpecial] else [])
       @ (if password' \<noteq> [] \<and> toLowerCase password' \<in> set (commonPasswords pol)
          then [CommonPassword] else [])
       @ (if password' \<noteq> [] \<and> hasSimplePatterns password' then [SimplePattern] else [])
     in \<lparr> isValid = (errs = []), errors = errs \<rparr>)"

text \<open>
  The validity rules in the specification's words, for comparison with the code: the
  simple patterns are looked for in the password as it is given.
\<close>

definition specSimplePattern :: "string \<Rightarrow> bool" where
  "specSimplePattern s =
    (list_ex (\<lambda>i. list_ex (\<lambda>seq. list_ex (\<lambda>j. take 3 (drop i s) = take 3 (drop j seq))
                                      [0 ..< length seq - 2])
                     keyboardSequences)
       [0 ..< length s - 2]
     \<or> list_ex (\<lambda>i. s ! i = s ! (i + 1) \<and> s ! (i + 1) = s ! (i + 2)) [0 ..< length s - 2]
     \<or> list_ex (\<lambda>i. (charCode (s ! (i + 1)) = charCode (s ! i) + 1
                       \<and> charCode (s ! (i + 2)) = charCode (s ! i) + 2)
                    \<or> (charCode (s ! (i + 1)) = charCode (s ! i) - 1
                       \<and> charCode (s ! (i + 2)) = charCode (s ! i) - 2))
         [0 ..< length s - 2])"

definition specValid :: "PasswordPolicy \<Rightarrow> string \<Rightarrow> bool" where
  "specValid pol p =
    (minLength pol \<le> length p \<and> length p \<le> maxLength pol
     \<and> list_ex isUpper p \<and> list_ex isLower p \<and> list_ex isDigit p \<and> list_ex isSpecial p
     \<and> toLowerCase p \<notin> set (commonPasswords pol)
     \<and> \<not> specSimplePattern p)"

text \<open>Which rule each message names, for a non-empty password.\<close>

fun violated :: "PasswordPolicy \<Rightarrow> string \<Rightarrow> PolicyError \<Rightarrow> bool" where
  "violated pol p (TooShort n) = (n = minLength pol \<and> length p < minLength pol)"
| "violated pol p (TooLong n) = (n = maxLength pol \<and> length p > maxLength pol)"
| "violated pol p NoUppercase = (\<not> list_ex isUpper p)"
| "violated pol p NoLowercase = (\<not> list_ex isLower p)"
| "violated pol p NoDigit = (\<not> list_ex isDigit p)"
| "violated pol p NoSpecial = (\<not> list_ex isSpecial p)"
| "violated pol p CommonPassword = (toLowerCase p \<in> set (commonPasswords pol))"
| "violated pol p SimplePattern = specSimplePattern (toLowerCase p)"

definition allRules :: "PasswordPolicy \<Rightarrow> PolicyError list" where
  "allRules pol =
    [TooShort (minLength pol), TooLong (maxLength pol), NoUppercase, NoLowercase, NoDigit,
     NoSpecial, CommonPassword, SimplePattern]"

section \<open>Password suggestions\<close>

definition lowercase :: string where
  "lowercase = ''abcdefghijklmnopqrstuvwxyz''"

definition uppercase :: string where
  "uppercase = ''ABCDEFGHIJKLMNOPQRSTUVWXYZ''"

definition numbers :: string where
  "numbers = ''0123456789''"

definition special :: string where
  "special = ''!@#$%^&*()_+-=[]{}|;:,.<>?''"

definition allChars :: string where
  "allChars = lowercase @ uppercase @ numbers @ special"

text \<open>
  The random source: \<open>rnd k\<close> is the integer that the \<open>k\<close>-th evaluation of
  \<open>Math.floor(Math.random() * n)\<close> yields.  The calls are, in order: the length
  (\<open>n = 5\<close>), one index into each of the four classes, one index into \<open>allChars\<close>
  for each of the \<open>length - 4\<close> fill steps, and one index \<open>j\<close> (\<open>n = i + 1\<close>) for each
  shuffle step \<open>i = length - 1, ..., 1\<close>.
\<close>

function fillLoop :: "(nat \<Rightarrow> nat) \<Rightarrow> nat \<Rightarrow> nat \<Rightarrow> nat \<Rightarrow> string \<Rightarrow> string" where
  "fillLoop rnd k i len pw =
    (if i < len then fillLoop rnd (k + 1) (i + 1) len (pw @ [allChars ! rnd k]) else pw)"
  by pat_completeness auto
termination
  by (relation "measure (\<lambda>(rnd, k, i, len, pw). len - i)") auto

declare fillLoop.simps [simp del]

text \<open>The Fisher-Yates loop; the destructuring assignment swaps positions \<open>i\<close> and \<open>j\<close>.\<close>

fun shuffleLoop :: "(nat \<Rightarrow> nat) \<Rightarrow> nat \<Rightarrow> nat \<Rightarrow> string \<Rightarrow> string" where
  "shuffleLoop rnd k 0 arr = arr"
| "shuffleLoop rnd k (Suc i) arr =
    (let j = rnd k
     in shuffleLoop rnd (k + 1) i (arr[Suc i := arr ! j, j := arr ! Suc i]))"

definition generateStrongPassword :: "(nat \<Rightarrow> nat) \<Rightarrow> string" where
  "generateStrongPassword rnd =
    (let len = 12 + rnd 0;
         pw = [lowercase ! rnd 1, uppercase ! rnd 2, numbers ! rnd 3, special ! rnd 4];
         pw = fillLoop rnd 5 4 len pw
     in shuffleLoop rnd (5 + (len - 4)) (length pw - 1) pw)"

text \<open>
  The outcomes \<open>Math.random\<close> can produce: every index is within its range (a value
  in \<open>[0, 1)\<close> times \<open>n\<close>, floored, is below \<open>n\<close>).
\<close>

definition validDraws :: "(nat \<Rightarrow> nat) \<Rightarrow> bool" where
  "validDraws rnd =
    (rnd 0 < 5 \<and> rnd 1 < length lowercase \<and> rnd 2 < length uppercase
     \<and> rnd 3 < length numbers \<and> rnd 4 < length special
     \<and> (\<forall>k\<in>{5 ..< 13 + rnd 0}. rnd k < length allChars)
     \<and> (\<forall>i\<in>{1 .. 11 + rnd 0}. rnd (2 * (12 + rnd 0) - i) \<le> i))"

text \<open>The outcome in which every draw is 0.\<close>

definition zeroDraws :: "nat \<Rightarrow> nat" where
  "zeroDraws k = 0"

section \<open>CSRF token store\<close>

record CsrfEntry =
  expires :: int
  userId :: "nat option"








text \<open>
  What \<open>setupSecurityMiddleware\<close> registers ahead of that middleware, in order: the
  rate limiters, which may answer 429 (their decision is the parameter \<open>limited\<close>), and
  the handler of \<open>POST /api/csp-report\<close>, which answers 204 and does not call
  \<open>next\<close>.  A route path matches without regard to the case of ASCII letters and with
  or without one trailing slash.  The other registered middlewares (helmet, hpp, the
  CSP header) always pass the request on.
\<close>

definition asciiLower :: "string \<Rightarrow> string" where
  "asciiLower s =
    map (\<lambda>c. case map_of (zip uppercase lowercase) c of None \<Rightarrow> c | Some l \<Rightarrow> l) s"












section \<open>Session token\<close>

datatype JsonValue = JNumber int | JString string | JDateText int | JNull | JUndefined

text \<open>
  \<open>generateToken\<close> of \<open>auth.ts\<close> (called by the register and login handlers of that
  file's \<open>setupAuth\<close>).  Its payload object literal is built from the user without
  its password.  \<open>JDateText t\<close> stands for the text \<open>Date.prototype.toString\<close>
  gives for the instant \<open>t\<close>; a property whose value is \<open>JUndefined\<close> is left out
  when the payload is serialised, one whose value is \<open>JNull\<close> is kept.
\<close>

definition jwtPayload :: "User \<Rightarrow> (string \<times> JsonValue) list" where
  "jwtPayload user =
    [(''id'', JNumber (int (id' user))),
     (''username'', JString (username user)),
     (''email'', JString (email user)),
     (''role'', case role user of None \<Rightarrow> JUndefined | Some r \<Rightarrow> JString r),
     (''bio'', case bio user of None \<Rightarrow> JNull | Some b \<Rightarrow> JString b),
     (''createdAt'', case createdAt user of None \<Rightarrow> JUndefined | Some t \<Rightarrow> JDateText t)]"

text \<open>
  \<open>process.env.JWT_EXPIRES_IN || "7d"\<close>, and its conversion: a string of digits
  becomes the number \<open>parseInt\<close> reads, anything else is passed on as a string.
  \<open>parseInt\<close> returns a double: up to \<open>2^53\<close> that is the exact value of the digits
  (\<open>Some\<close>); above, it is a rounded value or Infinity, which the model does not compute
  (\<open>None\<close>, and \<open>HugeNumber\<close> as the option).
\<close>

definition JWT_EXPIRES_IN :: "string option \<Rightarrow> string" where
  "JWT_EXPIRES_IN env = (case env of None \<Rightarrow> ''7d'' | Some v \<Rightarrow> if v = [] then ''7d'' else v)"

definition digitsValue :: "string \<Rightarrow> nat" where
  "digitsValue s = foldl (\<lambda>n c. 10 * n + (of_char c - 48)) 0 s"

definition parseInt :: "string \<Rightarrow> nat option" where
  "parseInt s = (if digitsValue s \<le> 2 ^ 53 then Some (digitsValue s) else None)"

datatype ExpiresIn = Seconds nat | HugeNumber | TimeSpan string

definition expiresInOption :: "string \<Rightarrow> ExpiresIn" where
  "expiresInOption s =
    (if s \<noteq> [] \<and> list_all isDigit s
     then (case parseInt s of Some n \<Rightarrow> Seconds n | None \<Rightarrow> HugeNumber)
     else TimeSpan s)"

text \<open>What \<open>generateToken\<close> hands to the signing call: the payload and the option.\<close>

record SignRequest =
  claims :: "(string \<times> JsonValue) list"
  expiresIn :: ExpiresIn

definition generateToken :: "string option \<Rightarrow> User \<Rightarrow> SignRequest" where
  "generateToken env user =
    \<lparr> claims = jwtPayload user, expiresIn = expiresInOption (JWT_EXPIRES_IN env) \<rparr>"

text \<open>
  The lifetime \<open>exp - iat\<close> that the signing library (jsonwebtoken with its time span
  parser, neither part of the repository) gives the token, in seconds, where this model
  determines it; \<open>None\<close> says that the model does not, not that signing fails.
  A number counts seconds.  A string is a time span; the model reads those made of
  digits, optional spaces and a unit name in any case, for the units from seconds to
  years (a year being 365.25 days), as long as the string has at most 100 characters.
  Both are read only while the arithmetic is exact in doubles.
\<close>

definition spanUnits :: "(string \<times> nat) list" where
  "spanUnits =
    [(''years'', 31557600), (''year'', 31557600), (''yrs'', 31557600), (''yr'', 31557600),
     (''y'', 31557600),
     (''weeks'', 604800), (''week'', 604800), (''w'', 604800),
     (''days'', 86400), (''day'', 86400), (''d'', 86400),
     (''hours'', 3600), (''hour'', 3600), (''hrs'', 3600), (''hr'', 3600), (''h'', 3600),
     (''minutes'', 60), (''minute'', 60), (''mins'', 60), (''min'', 60), (''m'', 60),
     (''seconds'', 1), (''second'', 1), (''secs'', 1), (''sec'', 1), (''s'', 1)]"

definition timeSpanSeconds :: "string \<Rightarrow> nat option" where
  "timeSpanSeconds s =
    (let ds = takeWhile isDigit s;
         unit = asciiLower (dropWhile (\<lambda>c. c = CHR '' '') (dropWhile isDigit s))
     in if ds = [] \<or> length s > 100 then None
        else case map_of spanUnits unit of
               None \<Rightarrow> None
             | Some k \<Rightarrow>
                 if digitsValue ds * k * 1000 < 2 ^ 53 then Some (digitsValue ds * k)
                 else None)"

fun lifetimeSeconds :: "ExpiresIn \<Rightarrow> nat option" where
  "lifetimeSeconds (Seconds n) = (if n < 2 ^ 52 then Some n else None)"
| "lifetimeSeconds HugeNumber = None"
| "lifetimeSeconds (TimeSpan s) = timeSpanSeconds s"

section \<open>Permission decisions\<close>

lemma games_delete_value: "perm GAMES DELETE = ''games.delete''"
  by (simp add: perm_def)

lemma games_delete_admin: "''games.delete'' \<in> set adminPermissions"
  unfolding games_delete_value [symmetric] adminPermissions_def by simp

lemma games_delete_user: "''games.delete'' \<in> set userPermissions"
  unfolding games_delete_value [symmetric] userPermissions_def by simp

lemma user_not_inherited: "''user'' \<notin> set objectPrototypeKeys"
  by (simp add: objectPrototypeKeys_def)

lemma rolePermissions_not_inherited:
  "k \<notin> set objectPrototypeKeys \<Longrightarrow> rolePermissions k \<noteq> Inherited"
  by (simp add: rolePermissions_def)

text \<open>
  C1 (as stated, refuted).  The claim says a regular user is denied \<open>games.delete\<close>.
  The \<open>user\<close> row of the table lists that permission, so the lookup answers true.
\<close>

theorem C1_regular_user_counterexample:
  "hasPermission (Some sampleUser) ''games.delete'' = Inr True"
  using games_delete_user
  by (simp add: hasPermission_def sampleUser_def rolePermissions_def)

text \<open>
  C1 (amended).  For every user record: with role \<open>admin\<close> the permission
  \<open>games.delete\<close> is granted, with role \<open>user\<close> it is granted as well, and the
  anonymous caller is refused every permission.
\<close>

theorem C1_hasPermission_table:
  "hasPermission (Some (u\<lparr>role := Some ''admin''\<rparr>)) ''games.delete'' = Inr True
   \<and> hasPermission (Some (u\<lparr>role := Some ''user''\<rparr>)) ''games.delete'' = Inr True
   \<and> hasPermission None p = Inr False"
  using games_delete_admin games_delete_user
  by (simp add: hasPermission_def rolePermissions_def)

theorem C1_hasPermission_table_witness:
  "hasPermission (Some (sampleUser\<lparr>role := Some ''admin''\<rparr>)) ''games.delete'' = Inr True
   \<and> hasPermission (Some (sampleUser\<lparr>role := Some ''user''\<rparr>)) ''games.delete'' = Inr True
   \<and> hasPermission None ''games.read'' = Inr False"
  using C1_hasPermission_table [of sampleUser "''games.read''"] by simp

text \<open>
  C10.  The claim: the check never throws, and a user whose role string is not in the
  table has the empty permission set, so the answer is false.  The code: for a user
  whose role is the string \<open>constructor\<close> (a value the \<open>VARCHAR\<close> role column
  holds and the registration passes through), \<open>rolePermissions[userRole]\<close> finds the
  property every object inherits, the \<open>|| []\<close> fallback written for unknown roles is
  not taken, and the call of the missing \<open>includes\<close> throws a TypeError.
\<close>

theorem C10_inherited_key_throws:
  "hasPermission (Some (sampleUser\<lparr>role := Some ''constructor''\<rparr>)) ''games.read''
     = Inl TypeError"
  by (simp add: hasPermission_def rolePermissions_def objectPrototypeKeys_def)

text \<open>
  Away from the twelve inherited names the check does what the claim says: it returns a
  boolean for the anonymous caller and for every other role, a missing or empty role is
  treated as \<open>user\<close>, and a role string that is neither \<open>user\<close> nor \<open>admin\<close> is
  refused every permission.
\<close>

lemma hasPermission_total_elsewhere:
  "(\<exists>b. hasPermission None p = Inr b)
   \<and> (role u \<notin> Some ` set objectPrototypeKeys \<longrightarrow> (\<exists>b. hasPermission (Some u) p = Inr b))
   \<and> (role u = None \<or> role u = Some [] \<longrightarrow>
        hasPermission (Some u) p = Inr (p \<in> set userPermissions))
   \<and> (role u = Some r \<and> r \<noteq> [] \<and> r \<noteq> ''user'' \<and> r \<noteq> ''admin''
        \<and> r \<notin> set objectPrototypeKeys \<longrightarrow> hasPermission (Some u) p = Inr False)"
proof (intro conjI impI)
  show "\<exists>b. hasPermission None p = Inr b"
    by (auto simp: hasPermission_def)
next
  assume a: "role u \<notin> Some ` set objectPrototypeKeys"
  define userRole where
    "userRole = (case role u of None \<Rightarrow> ''user'' | Some r \<Rightarrow> if r = [] then ''user'' else r)"
  have "userRole \<notin> set objectPrototypeKeys"
    using a user_not_inherited by (auto simp: userRole_def split: option.splits)
  then have "rolePermissions userRole \<noteq> Inherited"
    by (rule rolePermissions_not_inherited)
  moreover have "hasPermission (Some u) p =
      (case rolePermissions userRole of
         Own permissions \<Rightarrow> Inr (p \<in> set permissions)
       | Undefined \<Rightarrow> Inr False
       | Inherited \<Rightarrow> Inl TypeError)"
    by (simp add: hasPermission_def userRole_def)
  ultimately show "\<exists>b. hasPermission (Some u) p = Inr b"
    by (cases "rolePermissions userRole") auto
next
  assume "role u = None \<or> role u = Some []"
  then show "hasPermission (Some u) p = Inr (p \<in> set userPermissions)"
    by (auto simp: hasPermission_def rolePermissions_def)
next
  assume "role u = Some r \<and> r \<noteq> [] \<and> r \<noteq> ''user'' \<and> r \<noteq> ''admin''
            \<and> r \<notin> set objectPrototypeKeys"
  then show "hasPermission (Some u) p = Inr False"
    by (simp add: hasPermission_def rolePermissions_def)
qed

section \<open>Store lemmas, lockout and reset tokens\<close>

lemma sample_id: "id' sampleUser = 7" by (simp add: sampleUser_def)

lemma getUser_updateWhereId:
  "getUser i db = Some u \<Longrightarrow> id' (f u) = i \<Longrightarrow>
   getUser i (updateWhereId i f db) = Some (f u)"
  unfolding getUser_def updateWhereId_def
  by (induction db) (auto split: if_splits)

lemma getUser_updateWhereId_other:
  assumes "\<And>v. id' (f v) = id' v" and "i \<noteq> j"
  shows "getUser j (updateWhereId i f db) = getUser j db"
  unfolding getUser_def updateWhereId_def using assms
  by (induction db) (auto split: if_splits)

lemma find_Some_mem: "find P xs = Some x \<Longrightarrow> x \<in> set xs \<and> P x"
  by (induction xs) (auto split: if_splits)

lemma getUser_distinct:
  "distinct (map id' db) \<Longrightarrow> u \<in> set db \<Longrightarrow> getUser (id' u) db = Some u"
  unfolding getUser_def
  by (induction db) (auto simp: rev_image_eqI)

lemma lookupIdentifier_mem: "lookupIdentifier s db = Some u \<Longrightarrow> u \<in> set db"
  by (auto simp: lookupIdentifier_def getUserByEmail_def getUserByUsername_def
      dest: find_Some_mem split: if_splits)

lemma same_id_same_row:
  "distinct (map id' db) \<Longrightarrow> u \<in> set db \<Longrightarrow> v \<in> set db \<Longrightarrow> id' v = id' u \<Longrightarrow> v = u"
  by (meson distinct_map inj_onD)




lemma replace_distinct:
  "id' u1 = i \<Longrightarrow> distinct (map id' db) \<Longrightarrow>
   distinct (map id' (map (\<lambda>v. if id' v = i then u1 else v) db))"
proof -
  assume a: "id' u1 = i" and d: "distinct (map id' db)"
  have eq: "map id' (map (\<lambda>v. if id' v = i then u1 else v) db) = map id' db"
    using a by (induction db) auto
  show ?thesis unfolding eq by (rule d)
qed






lemma find_map_comp: "find P (map g xs) = map_option g (find (\<lambda>x. P (g x)) xs)"
  by (induction xs) auto

text \<open>
  After any of these steps the hypotheses of the theorem hold again, of the new table
  and the new row: the steps chain.
\<close>

lemma login_step_chains:
  assumes ids: "distinct (map id' db)" and found: "lookupIdentifier ident db = Some u"
    and same: "id' u' = id' u" "username u' = username u" "email u' = email u"
  shows "distinct (map id' (map (\<lambda>v. if id' v = id' u then u' else v) db))
     \<and> lookupIdentifier ident (map (\<lambda>v. if id' v = id' u then u' else v) db) = Some u'"
proof -
  let ?g = "\<lambda>v. if id' v = id' u then u' else v"
  have r: "u \<in> set db" using found by (rule lookupIdentifier_mem)
  have g: "?g v = (if v = u then u' else v)" if "v \<in> set db" for v
    using that same_id_same_row [OF ids r that] by auto
  have f: "find P (map ?g db) = Some u'"
    if "find P db = Some u" and "\<And>v. v \<in> set db \<Longrightarrow> P (?g v) = P v" for P
  proof -
    have "find P (map ?g db) = map_option ?g (find (\<lambda>x. P (?g x)) db)"
      by (rule find_map_comp)
    also have "find (\<lambda>x. P (?g x)) db = find P db"
      using that(2) by (intro find_cong refl) simp
    finally show ?thesis using that(1) by simp
  qed
  have "lookupIdentifier ident (map ?g db) = Some u'"
  proof (cases "CHR ''@'' \<in> set ident")
    case True
    then have "find (\<lambda>v. email v = ident) db = Some u"
      using found by (simp add: lookupIdentifier_def getUserByEmail_def)
    then have "find (\<lambda>v. email v = ident) (map ?g db) = Some u'"
      by (rule f) (use g same in auto)
    with True show ?thesis by (simp add: lookupIdentifier_def getUserByEmail_def)
  next
    case False
    then have "find (\<lambda>v. username v = ident) db = Some u"
      using found by (simp add: lookupIdentifier_def getUserByUsername_def)
    then have "find (\<lambda>v. username v = ident) (map ?g db) = Some u'"
      by (rule f) (use g same in auto)
    with False show ?thesis by (simp add: lookupIdentifier_def getUserByUsername_def)
  qed
  moreover have "distinct (map id' (map ?g db))"
    using ids same(1) by (intro replace_distinct) simp_all
  ultimately show ?thesis by simp
qed



text \<open>
  The scenario of the specification, run on the model: five wrong passwords, the
  correct one a second later, and the correct one again once the 30 minutes are over.
\<close>

lemma lockout_scenario:
  "loginRun [(1000, ''a''), (2000, ''b''), (3000, ''c''), (4000, ''d''), (5000, ''e''),
             (6000, ''correct-Horse1!''), (5000 + 1800000, ''correct-Horse1!'')] [sampleUser]
   = ([InvalidCredentials (Some 4), InvalidCredentials (Some 3), InvalidCredentials (Some 2),
       InvalidCredentials (Some 1), AccountLocked 30, AccountLocked 30,
       LoginSuccess (sampleUser\<lparr>lastLogin := Some 5000\<rparr>)],
      [sampleUser\<lparr>lastLogin := Some 1805000\<rparr>])"
  by (simp add: loginRun_def login_def checkPassword_def lookupIdentifier_def
      getUserByUsername_def sampleUser_def sampleCompare_def incrementLoginAttempt_def
      INT4_MAX_def resetUserLoginAttempts_def updateUserLastLogin_def
      updateUserAccountStatus_def updateWhereId_def MAX_LOGIN_ATTEMPTS_def
      ACCOUNT_LOCK_TIME_MS_def ceilDiv_def Let_def)

text \<open>
  When the lock expires between the two clock readings, the attempt is still answered
  \<open>ACCOUNT_LOCKED\<close>, with 0 minutes remaining.
\<close>

lemma late_second_reading:
  "login sampleCompare (9000 + 1799999) (9000 + 1800000) ''alice'' ''correct-Horse1!''
        [sampleUser\<lparr>failedLoginAttempts := Some 5, accountStatus := Locked,
                    lastLogin := Some 9000\<rparr>]
      = (AccountLocked 0,
         [sampleUser\<lparr>failedLoginAttempts := Some 5, accountStatus := Locked,
                     lastLogin := Some 9000\<rparr>])"
  by (simp add: login_def lookupIdentifier_def getUserByUsername_def sampleUser_def
      ACCOUNT_LOCK_TIME_MS_def ceilDiv_def)

lemma getUserByResetToken_mem:
  "getUserByResetToken token db = Some u \<Longrightarrow> u \<in> set db \<and> passwordResetToken u = Some token"
  unfolding getUserByResetToken_def by (rule find_Some_mem)

lemma getUser_resetPassword:
  "getUser i db = Some u \<Longrightarrow> id' u = i \<Longrightarrow>
   getUser i (resetPassword i h now db) =
     Some (u\<lparr>password := h, passwordResetToken := None, passwordResetExpires := None,
             lastPasswordReset := Some now, failedLoginAttempts := Some 0,
             accountStatus := Active\<rparr>)"
  unfolding resetPassword_def by (rule getUser_updateWhereId) simp_all

lemma getUser_resetPassword_other:
  "i \<noteq> j \<Longrightarrow> getUser j (resetPassword i h now db) = getUser j db"
  unfolding resetPassword_def by (rule getUser_updateWhereId_other) simp_all

lemma token_gone_after_reset:
  assumes "\<forall>v\<in>set db. passwordResetToken v = Some token \<longrightarrow> id' v = i"
  shows "getUserByResetToken token (resetPassword i h now db) = None"
  using assms
  unfolding getUserByResetToken_def resetPassword_def updateWhereId_def find_None_iff
  by auto

text \<open>
  C3.  Consuming a valid token (non-empty, carried by the row \<open>u\<close> and by no row of
  another account, not expired) answers "password reset" and, in one update, stores the
  new hash, clears \<open>passwordResetToken\<close> and \<open>passwordResetExpires\<close> together, sets
  \<open>failedLoginAttempts\<close> to 0 and \<open>accountStatus\<close> to \<open>active\<close>, leaving every other
  account's row as it was.  Afterwards the token is single-use: any further consume with
  it, at any time and with any new password, answers "token invalid or expired" and
  returns the table unchanged, and validation of it fails the same way.
\<close>

theorem C3_consume_once:
  assumes ids: "distinct (map id' db)"
    and tok: "token \<noteq> []" and pw: "pw \<noteq> []"
    and found: "getUserByResetToken token db = Some u"
    and exp: "passwordResetExpires u = Some e" and live: "now \<le> e"
    and uniq: "\<forall>v\<in>set db. passwordResetToken v = Some token \<longrightarrow> id' v = id' u"
  shows "\<exists>db'. resetPasswordRoute h now (Some token) (Some pw) db = (PasswordResetDone, db')
     \<and> getUser (id' u) db' =
          Some (u\<lparr>password := h pw, passwordResetToken := None,
                  passwordResetExpires := None, lastPasswordReset := Some now,
                  failedLoginAttempts := Some 0, accountStatus := Active\<rparr>)
     \<and> (\<forall>j. j \<noteq> id' u \<longrightarrow> getUser j db' = getUser j db)
     \<and> (\<forall>h2 now2 pw2. pw2 \<noteq> [] \<longrightarrow>
           resetPasswordRoute h2 now2 (Some token) (Some pw2) db' = (TokenExpiredOrInvalid, db'))
     \<and> (\<forall>now2. validateResetToken now2 token db' = TokenExpiredOrInvalid)"
proof -
  let ?db' = "resetPassword (id' u) (h pw) now db"
  have row: "getUser (id' u) db = Some u"
    using ids found by (simp add: getUser_distinct getUserByResetToken_mem)
  have first: "resetPasswordRoute h now (Some token) (Some pw) db = (PasswordResetDone, ?db')"
    using tok pw found exp live by (simp add: resetPasswordRoute_def)
  have gone: "getUserByResetToken token ?db' = None"
    using uniq by (rule token_gone_after_reset)
  have again: "resetPasswordRoute h2 now2 (Some token) (Some pw2) ?db' = (TokenExpiredOrInvalid, ?db')"
    if "pw2 \<noteq> []" for h2 now2 pw2
    using that tok gone by (simp add: resetPasswordRoute_def)
  have val: "validateResetToken now2 token ?db' = TokenExpiredOrInvalid" for now2
    using tok gone by (simp add: validateResetToken_def)
  show ?thesis
    using first getUser_resetPassword [OF row refl, of "h pw" now]
      getUser_resetPassword_other [of "id' u" _ "h pw" now db] again val
    by (intro exI [of _ ?db']) simp
qed

theorem C3_consume_once_witness:
  "resetPasswordRoute sampleHash 2000 (Some ''tok'') (Some ''Tr0ub4dor!9'')
     [sampleUser\<lparr>failedLoginAttempts := Some 5, accountStatus := Locked,
                 passwordResetToken := Some ''tok'', passwordResetExpires := Some 3000\<rparr>]
   = (PasswordResetDone,
      [sampleUser\<lparr>password := ''$argon2id$Tr0ub4dor!9'', passwordResetToken := None,
                  passwordResetExpires := None, lastPasswordReset := Some 2000,
                  failedLoginAttempts := Some 0, accountStatus := Active\<rparr>])
   \<and> resetPasswordRoute sampleHash 2001 (Some ''tok'') (Some ''Tr0ub4dor!9'')
       [sampleUser\<lparr>password := ''$argon2id$Tr0ub4dor!9'', passwordResetToken := None,
                  passwordResetExpires := None, lastPasswordReset := Some 2000,
                  failedLoginAttempts := Some 0, accountStatus := Active\<rparr>]
     = (TokenExpiredOrInvalid,
        [sampleUser\<lparr>password := ''$argon2id$Tr0ub4dor!9'', passwordResetToken := None,
                  passwordResetExpires := None, lastPasswordReset := Some 2000,
                  failedLoginAttempts := Some 0, accountStatus := Active\<rparr>])"
proof -
  let ?u = "sampleUser\<lparr>failedLoginAttempts := Some 5, accountStatus := Locked,
                 passwordResetToken := Some ''tok'', passwordResetExpires := Some 3000\<rparr>"
  let ?v = "sampleUser\<lparr>password := ''$argon2id$Tr0ub4dor!9'', passwordResetToken := None,
                  passwordResetExpires := None, lastPasswordReset := Some 2000,
                  failedLoginAttempts := Some 0, accountStatus := Active\<rparr>"
  have ids: "distinct (map id' [?u])" by simp
  have tok: "''tok'' \<noteq> []" by simp
  have pw: "''Tr0ub4dor!9'' \<noteq> []" by simp
  have found: "getUserByResetToken ''tok'' [?u] = Some ?u"
    by (simp add: getUserByResetToken_def)
  have exp: "passwordResetExpires ?u = Some 3000" by simp
  have live: "(2000::int) \<le> 3000" by simp
  have uniq: "\<forall>v\<in>set [?u]. passwordResetToken v = Some ''tok'' \<longrightarrow> id' v = id' ?u"
    by simp
  have first: "resetPasswordRoute sampleHash 2000 (Some ''tok'') (Some ''Tr0ub4dor!9'') [?u]
     = (PasswordResetDone, [?v])"
    using found
    by (simp add: resetPasswordRoute_def resetPassword_def updateWhereId_def sampleHash_def)
  obtain db' where
    r: "resetPasswordRoute sampleHash 2000 (Some ''tok'') (Some ''Tr0ub4dor!9'') [?u]
          = (PasswordResetDone, db')"
    and again: "\<forall>h2 now2 pw2. pw2 \<noteq> [] \<longrightarrow>
           resetPasswordRoute h2 now2 (Some ''tok'') (Some pw2) db' = (TokenExpiredOrInvalid, db')"
    using C3_consume_once [where h=sampleHash, OF ids tok pw found exp live uniq]
    by blast
  from r first have d: "db' = [?v]"
    by (simp only: prod.inject)
  from again tok pw have second:
    "resetPasswordRoute sampleHash 2001 (Some ''tok'') (Some ''Tr0ub4dor!9'') db'
       = (TokenExpiredOrInvalid, db')"
    by blast
  show ?thesis using first second unfolding d by (rule conjI)
qed

text \<open>
  C5 (amended).  Validation returns the user id exactly when the token is found on a
  row whose expiry is set and \<open>now \<le> expiry\<close> (the instant of expiry itself is still
  accepted); every other non-empty token gets the one answer "token invalid or expired",
  the same for not found and for expired; a token with expiry \<open>t + 1h\<close> is accepted at
  \<open>t + 59m\<close> and rejected at \<open>t + 61m\<close>.
\<close>

theorem C5_validate:
  "(validateResetToken now token db = TokenValid i \<longleftrightarrow>
      token \<noteq> [] \<and> (\<exists>u e. getUserByResetToken token db = Some u \<and> id' u = i
                          \<and> passwordResetExpires u = Some e \<and> now \<le> e))
   \<and> (token \<noteq> [] \<and> (\<forall>j. validateResetToken now token db \<noteq> TokenValid j) \<longrightarrow>
        validateResetToken now token db = TokenExpiredOrInvalid)
   \<and> (token \<noteq> [] \<and> getUserByResetToken token db = Some u
        \<and> passwordResetExpires u = Some (t + 60 * 60 * 1000) \<longrightarrow>
        validateResetToken (t + 59 * 60 * 1000) token db = TokenValid (id' u)
        \<and> validateResetToken (t + 61 * 60 * 1000) token db = TokenExpiredOrInvalid)"
  by (auto simp: validateResetToken_def split: option.splits)

theorem C5_validate_witness:
  "validateResetToken (1000 + 59 * 60 * 1000) ''tok''
     [sampleUser\<lparr>passwordResetToken := Some ''tok'',
                 passwordResetExpires := Some (1000 + 60 * 60 * 1000)\<rparr>] = TokenValid 7
   \<and> validateResetToken (1000 + 61 * 60 * 1000) ''tok''
     [sampleUser\<lparr>passwordResetToken := Some ''tok'',
                 passwordResetExpires := Some (1000 + 60 * 60 * 1000)\<rparr>] = TokenExpiredOrInvalid
   \<and> validateResetToken 5000 ''other''
     [sampleUser\<lparr>passwordResetToken := Some ''tok'',
                 passwordResetExpires := Some (1000 + 60 * 60 * 1000)\<rparr>] = TokenExpiredOrInvalid"
proof -
  let ?u = "sampleUser\<lparr>passwordResetToken := Some ''tok'',
                 passwordResetExpires := Some (1000 + 60 * 60 * 1000)\<rparr>"
  have found: "getUserByResetToken ''tok'' [?u] = Some ?u"
    by (simp add: getUserByResetToken_def)
  have pre: "''tok'' \<noteq> [] \<and> getUserByResetToken ''tok'' [?u] = Some ?u
        \<and> passwordResetExpires ?u = Some (1000 + 60 * 60 * 1000)"
    using found by simp
  have imp: "''tok'' \<noteq> [] \<and> getUserByResetToken ''tok'' [?u] = Some ?u
        \<and> passwordResetExpires ?u = Some (1000 + 60 * 60 * 1000) \<longrightarrow>
        validateResetToken (1000 + 59 * 60 * 1000) ''tok'' [?u] = TokenValid (id' ?u)
        \<and> validateResetToken (1000 + 61 * 60 * 1000) ''tok'' [?u] = TokenExpiredOrInvalid"
    using C5_validate [where token="''tok''" and db="[?u]" and u="?u" and t=1000
        and now=0 and i=0]
    by (rule conjunct2 [THEN conjunct2])
  from imp pre have "validateResetToken (1000 + 59 * 60 * 1000) ''tok'' [?u] = TokenValid (id' ?u)
        \<and> validateResetToken (1000 + 61 * 60 * 1000) ''tok'' [?u] = TokenExpiredOrInvalid"
    by (rule mp)
  then have first: "validateResetToken (1000 + 59 * 60 * 1000) ''tok'' [?u] = TokenValid 7
        \<and> validateResetToken (1000 + 61 * 60 * 1000) ''tok'' [?u] = TokenExpiredOrInvalid"
    by (simp add: sample_id)
  have none: "getUserByResetToken ''other'' [?u] = None"
    by (simp add: getUserByResetToken_def)
  have "\<forall>j. validateResetToken 5000 ''other'' [?u] \<noteq> TokenValid j"
    using C5_validate [where now=5000 and token="''other''" and db="[?u]"] none
    by simp
  then have "validateResetToken 5000 ''other'' [?u] = TokenExpiredOrInvalid"
    using C5_validate [where now=5000 and token="''other''" and db="[?u]"]
    by simp
  with first show ?thesis by simp
qed

text \<open>
  C5 (as stated, refuted).  The claim rejects every \<open>now \<ge> expiry\<close>.  The route
  rejects only when \<open>expiry < now\<close>: at \<open>now = expiry\<close> the token is accepted.
\<close>

theorem C5_boundary_counterexample:
  "validateResetToken 3600000 ''tok''
     [sampleUser\<lparr>passwordResetToken := Some ''tok'', passwordResetExpires := Some 3600000\<rparr>]
   = TokenValid 7"
  by (simp add: validateResetToken_def getUserByResetToken_def sampleUser_def)


section \<open>Password validation\<close>

lemma includes'_window:
  "length pat = 3 \<Longrightarrow>
   includes' s pat \<longleftrightarrow> (\<exists>i. i + 3 \<le> length s \<and> take 3 (drop i s) = pat)"
proof (induction s)
  case Nil
  then show ?case by auto
next
  case (Cons c cs)
  have "(\<exists>i. i + 3 \<le> length (c # cs) \<and> take 3 (drop i (c # cs)) = pat)
        \<longleftrightarrow> (3 \<le> length (c # cs) \<and> take 3 (c # cs) = pat)
            \<or> (\<exists>i. i + 3 \<le> length cs \<and> take 3 (drop i cs) = pat)"
    (is "?L \<longleftrightarrow> ?A \<or> ?B")
  proof
    assume ?L
    then obtain i where i: "i + 3 \<le> length (c # cs)" "take 3 (drop i (c # cs)) = pat"
      by blast
    show "?A \<or> ?B"
    proof (cases i)
      case 0
      with i show ?thesis by simp
    next
      case (Suc k)
      with i have "k + 3 \<le> length cs \<and> take 3 (drop k cs) = pat" by simp
      then show ?thesis by blast
    qed
  next
    assume "?A \<or> ?B"
    then show ?L
    proof
      assume ?A
      then have "0 + 3 \<le> length (c # cs) \<and> take 3 (drop 0 (c # cs)) = pat" by simp
      then show ?L by blast
    next
      assume ?B
      then obtain k where "k + 3 \<le> length cs" "take 3 (drop k cs) = pat" by blast
      then have "Suc k + 3 \<le> length (c # cs) \<and> take 3 (drop (Suc k) (c # cs)) = pat"
        by simp
      then show ?L by blast
    qed
  qed
  moreover have "take (length pat) (c # cs) = pat \<longleftrightarrow> 3 \<le> length (c # cs) \<and> take 3 (c # cs) = pat"
    using Cons.prems by (metis length_take min_def nat_le_linear take_all)
  ultimately show ?case using Cons by simp
qed

lemma keyboardLoop_spec:
  "keyboardLoop s \<longleftrightarrow>
     list_ex (\<lambda>i. list_ex (\<lambda>seq. list_ex (\<lambda>j. take 3 (drop i s) = take 3 (drop j seq))
                                      [0 ..< length seq - 2])
                     keyboardSequences)
       [0 ..< length s - 2]"
proof -
  have w: "includes' s (take 3 (drop j seq)) \<longleftrightarrow>
            (\<exists>i. i + 3 \<le> length s \<and> take 3 (drop i s) = take 3 (drop j seq))"
    if "j < length seq - 2" for j seq
    using that by (intro includes'_window) simp
  have "keyboardLoop s \<longleftrightarrow>
     (\<exists>seq\<in>set keyboardSequences. \<exists>j\<in>{0..<length seq - 2}.
        includes' s (take 3 (drop j seq)))"
    unfolding keyboardLoop_def list_ex_iff by simp
  also have "\<dots> \<longleftrightarrow>
     (\<exists>seq\<in>set keyboardSequences. \<exists>j\<in>{0..<length seq - 2}. \<exists>i. i + 3 \<le> length s
         \<and> take 3 (drop i s) = take 3 (drop j seq))"
    by (intro bex_cong refl) (simp add: w)
  also have "\<dots> \<longleftrightarrow>
     (\<exists>i\<in>{0..<length s - 2}. \<exists>seq\<in>set keyboardSequences. \<exists>j\<in>{0..<length seq - 2}.
         take 3 (drop i s) = take 3 (drop j seq))"
  proof -
    have "i + 3 \<le> length s \<longleftrightarrow> i \<in> {0..<length s - 2}" for i by auto
    then show ?thesis by blast
  qed
  finally show ?thesis unfolding list_ex_iff by simp
qed

lemma hasSimplePatterns_spec: "hasSimplePatterns p = specSimplePattern (toLowerCase p)"
proof -
  have r: "repetitionLoop s \<longleftrightarrow>
      list_ex (\<lambda>i. s ! i = s ! (i + 1) \<and> s ! (i + 1) = s ! (i + 2)) [0 ..< length s - 2]" for s
    unfolding repetitionLoop_def list_ex_iff by auto
  have q: "sequenceLoop s \<longleftrightarrow>
      list_ex (\<lambda>i. (charCode (s ! (i + 1)) = charCode (s ! i) + 1
                       \<and> charCode (s ! (i + 2)) = charCode (s ! i) + 2)
                    \<or> (charCode (s ! (i + 1)) = charCode (s ! i) - 1
                       \<and> charCode (s ! (i + 2)) = charCode (s ! i) - 2))
         [0 ..< length s - 2]" for s
    unfolding sequenceLoop_def list_ex_iff Let_def by auto
  show ?thesis
    unfolding hasSimplePatterns_def Let_def specSimplePattern_def
    using keyboardLoop_spec [of "toLowerCase p"] r [of "toLowerCase p"] q [of "toLowerCase p"]
    by simp
qed

lemma policy_fields:
  "minLength passwordPolicy = 8" "maxLength passwordPolicy = 100"
  by (simp_all add: passwordPolicy_def)

text \<open>
  C6 (amended).  For the default policy and every password \<open>p\<close>, \<open>isValid\<close> holds
  exactly when \<open>8 \<le> length p \<le> 100\<close>, \<open>p\<close> has an uppercase letter, a lowercase
  letter, a digit and a non-alphanumeric character, the lowercased \<open>p\<close> is not a common
  password, and the LOWERCASED \<open>p\<close> is free of simple patterns: no 3-character window
  that is a window of a keyboard sequence, no three equal consecutive characters, no
  3-character run of consecutive code points up or down.  For a non-empty \<open>p\<close> the
  errors list holds exactly the violated rules, in the fixed order; for the empty
  password it holds the minimum-length message alone.
\<close>

theorem C6_validate:
  "(isValid (validate passwordPolicy p) \<longleftrightarrow>
      8 \<le> length p \<and> length p \<le> 100
      \<and> list_ex isUpper p \<and> list_ex isLower p \<and> list_ex isDigit p \<and> list_ex isSpecial p
      \<and> toLowerCase p \<notin> set (commonPasswords passwordPolicy)
      \<and> \<not> specSimplePattern (toLowerCase p))
   \<and> (p \<noteq> [] \<longrightarrow>
        errors (validate passwordPolicy p)
          = filter (violated passwordPolicy p) (allRules passwordPolicy))
   \<and> errors (validate passwordPolicy []) = [TooShort 8]"
proof (intro conjI impI)
  show "isValid (validate passwordPolicy p) \<longleftrightarrow>
      8 \<le> length p \<and> length p \<le> 100
      \<and> list_ex isUpper p \<and> list_ex isLower p \<and> list_ex isDigit p \<and> list_ex isSpecial p
      \<and> toLowerCase p \<notin> set (commonPasswords passwordPolicy)
      \<and> \<not> specSimplePattern (toLowerCase p)"
    unfolding validate_def Let_def hasSimplePatterns_spec policy_fields
    by (cases "p = []") auto
next
  assume "p \<noteq> []"
  then show "errors (validate passwordPolicy p)
          = filter (violated passwordPolicy p) (allRules passwordPolicy)"
    unfolding validate_def Let_def hasSimplePatterns_spec allRules_def
    by simp
next
  show "errors (validate passwordPolicy []) = [TooShort 8]"
    by (simp add: validate_def policy_fields)
qed

theorem C6_validate_witness:
  "isValid (validate passwordPolicy ''Tr0ub4dor!9'')
   \<and> errors (validate passwordPolicy ''abc'')
       = [TooShort 8, NoUppercase, NoDigit, NoSpecial, SimplePattern]"
proof -
  have ne: "''abc'' \<noteq> []" by simp
  have "errors (validate passwordPolicy ''abc'')
          = filter (violated passwordPolicy ''abc'') (allRules passwordPolicy)"
    using C6_validate [of "''abc''"] ne by blast
  also have "\<dots> = [TooShort 8, NoUppercase, NoDigit, NoSpecial, SimplePattern]"
    by code_simp
  finally have a: "errors (validate passwordPolicy ''abc'')
       = [TooShort 8, NoUppercase, NoDigit, NoSpecial, SimplePattern]" .
  have "8 \<le> length ''Tr0ub4dor!9'' \<and> length ''Tr0ub4dor!9'' \<le> 100
      \<and> list_ex isUpper ''Tr0ub4dor!9'' \<and> list_ex isLower ''Tr0ub4dor!9''
      \<and> list_ex isDigit ''Tr0ub4dor!9'' \<and> list_ex isSpecial ''Tr0ub4dor!9''
      \<and> toLowerCase ''Tr0ub4dor!9'' \<notin> set (commonPasswords passwordPolicy)
      \<and> \<not> specSimplePattern (toLowerCase ''Tr0ub4dor!9'')"
    by code_simp
  then have b: "isValid (validate passwordPolicy ''Tr0ub4dor!9'')"
    using C6_validate [of "''Tr0ub4dor!9''"] by blast
  show ?thesis using a b by (rule conjI [rotated])
qed

text \<open>
  C6 (as stated, refuted).  Read on the password as given, the claim's rules hold of
  \<open>Qz7!mMmK\<close> (no three equal characters in a row), yet the code rejects it, because
  lowercased it contains \<open>mmm\<close>; and they fail for \<open>Kq7@ABmz\<close> (code points 64, 65, 66
  in a row), yet the code accepts it, because lowercased the run is gone.
\<close>

theorem C6_case_counterexample:
  "(specValid passwordPolicy ''Qz7!mMmK'' \<and> \<not> isValid (validate passwordPolicy ''Qz7!mMmK''))
   \<and> (\<not> specValid passwordPolicy ''Kq7@ABmz'' \<and> isValid (validate passwordPolicy ''Kq7@ABmz''))"
  by code_simp

section \<open>Password suggestions are valid up to patterns\<close>

lemma fillLoop_length:
  "i \<le> len \<Longrightarrow> length pw = i \<Longrightarrow> length (fillLoop rnd k i len pw) = len"
proof (induction rnd k i len pw rule: fillLoop.induct)
  case (1 rnd k i len pw)
  show ?case
  proof (cases "i < len")
    case True
    then have "length (fillLoop rnd (k + 1) (i + 1) len (pw @ [allChars ! rnd k])) = len"
      using "1.IH" "1.prems" by simp
    with True show ?thesis by (subst fillLoop.simps) simp
  next
    case False
    with "1.prems" show ?thesis by (subst fillLoop.simps) simp
  qed
qed

lemma fillLoop_keeps: "set pw \<subseteq> set (fillLoop rnd k i len pw)"
proof (induction rnd k i len pw rule: fillLoop.induct)
  case (1 rnd k i len pw)
  show ?case
  proof (cases "i < len")
    case True
    then have "set (pw @ [allChars ! rnd k])
        \<subseteq> set (fillLoop rnd (k + 1) (i + 1) len (pw @ [allChars ! rnd k]))"
      using "1.IH" by simp
    with True show ?thesis by (subst fillLoop.simps) auto
  next
    case False
    then show ?thesis by (subst fillLoop.simps) simp
  qed
qed

lemma shuffleLoop_mset:
  "i < length arr \<Longrightarrow> (\<forall>m\<in>{1..i}. rnd (k + (i - m)) \<le> m) \<Longrightarrow>
   mset (shuffleLoop rnd k i arr) = mset arr"
proof (induction i arbitrary: k arr)
  case 0
  then show ?case by simp
next
  case (Suc i)
  let ?j = "rnd k"
  let ?arr = "arr[Suc i := arr ! ?j, ?j := arr ! Suc i]"
  have j: "?j \<le> Suc i"
    using Suc.prems(2) by (auto dest: bspec [where x = "Suc i"])
  then have sw: "mset ?arr = mset arr"
    using Suc.prems(1) by (simp add: mset_swap)
  have "\<forall>m\<in>{1..i}. rnd (k + 1 + (i - m)) \<le> m"
  proof
    fix m assume m: "m \<in> {1..i}"
    then have "rnd (k + (Suc i - m)) \<le> m" using Suc.prems(2) by simp
    moreover from m have "m \<le> i" by simp
    then have "k + (Suc i - m) = k + 1 + (i - m)" by arith
    ultimately show "rnd (k + 1 + (i - m)) \<le> m" by simp
  qed
  moreover have "i < length ?arr" using Suc.prems(1) by simp
  ultimately have "mset (shuffleLoop rnd (k + 1) i ?arr) = mset ?arr"
    by (rule Suc.IH [rotated])
  with sw show ?case by (simp add: Let_def)
qed


lemma class_members:
  "\<forall>c\<in>set lowercase. isLower c" "\<forall>c\<in>set uppercase. isUpper c"
  "\<forall>c\<in>set numbers. isDigit c" "\<forall>c\<in>set special. isSpecial (lowerChar c)"
  "\<forall>c\<in>set special. isSpecial c"
  by code_simp+

lemma common_no_special:
  "\<forall>w\<in>set (commonPasswords passwordPolicy). \<forall>c\<in>set w. \<not> isSpecial c"
  by code_simp

lemma class_lengths:
  "length lowercase = 26" "length uppercase = 26" "length numbers = 10" "length special = 26"
  by (simp_all add: lowercase_def uppercase_def numbers_def special_def)

lemma generate_content:
  assumes v: "validDraws rnd"
  shows "length (generateStrongPassword rnd) = 12 + rnd 0"
    and "{lowercase ! rnd 1, uppercase ! rnd 2, numbers ! rnd 3, special ! rnd 4}
           \<subseteq> set (generateStrongPassword rnd)"
proof -
  let ?len = "12 + rnd 0"
  let ?init = "[lowercase ! rnd 1, uppercase ! rnd 2, numbers ! rnd 3, special ! rnd 4]"
  let ?pw = "fillLoop rnd 5 4 ?len ?init"
  have len: "length ?pw = ?len"
    by (rule fillLoop_length) simp_all
  have g: "generateStrongPassword rnd = shuffleLoop rnd (?len + 1) (?len - 1) ?pw"
    using len by (simp add: generateStrongPassword_def Let_def)
  have "\<forall>m\<in>{1..?len - 1}. rnd (?len + 1 + (?len - 1 - m)) \<le> m"
  proof
    fix m assume m: "m \<in> {1..?len - 1}"
    then have "rnd (2 * ?len - m) \<le> m" using v by (simp add: validDraws_def)
    moreover have "2 * ?len - m = ?len + 1 + (?len - 1 - m)" using m by auto
    ultimately show "rnd (?len + 1 + (?len - 1 - m)) \<le> m" by simp
  qed
  then have ms: "mset (generateStrongPassword rnd) = mset ?pw"
    unfolding g using len by (intro shuffleLoop_mset) simp_all
  from ms have "size (mset (generateStrongPassword rnd)) = size (mset ?pw)" by simp
  then show "length (generateStrongPassword rnd) = 12 + rnd 0"
    using len by simp
  from ms have "set (generateStrongPassword rnd) = set ?pw"
    by (rule mset_eq_setD)
  then show "{lowercase ! rnd 1, uppercase ! rnd 2, numbers ! rnd 3, special ! rnd 4}
           \<subseteq> set (generateStrongPassword rnd)"
    using fillLoop_keeps [where pw="?init" and rnd=rnd and k=5 and i=4 and len="?len"]
    by simp
qed

text \<open>
  C9 (amended).  For every outcome of the random draws, the suggested password has
  between 12 and 16 characters, contains an uppercase letter, a lowercase letter, a digit
  and a special character, and is not a common password; so the only rule of
  \<open>validate\<close> it can break is the one on simple patterns, and it is valid exactly when
  it happens to contain none.
\<close>

theorem C9_generate:
  assumes v: "validDraws rnd"
  shows "12 \<le> length (generateStrongPassword rnd) \<and> length (generateStrongPassword rnd) \<le> 16
    \<and> list_ex isUpper (generateStrongPassword rnd)
    \<and> list_ex isLower (generateStrongPassword rnd)
    \<and> list_ex isDigit (generateStrongPassword rnd)
    \<and> list_ex isSpecial (generateStrongPassword rnd)
    \<and> toLowerCase (generateStrongPassword rnd) \<notin> set (commonPasswords passwordPolicy)
    \<and> set (errors (validate passwordPolicy (generateStrongPassword rnd))) \<subseteq> {SimplePattern}
    \<and> (isValid (validate passwordPolicy (generateStrongPassword rnd))
         \<longleftrightarrow> \<not> hasSimplePatterns (generateStrongPassword rnd))"
proof -
  let ?p = "generateStrongPassword rnd"
  note c = generate_content [OF v]
  have r: "rnd 0 < 5" "rnd 1 < 26" "rnd 2 < 26" "rnd 3 < 10" "rnd 4 < 26"
    using v by (simp_all add: validDraws_def class_lengths)
  have len: "12 \<le> length ?p" "length ?p \<le> 16"
    using c(1) r(1) by simp_all
  have lo: "lowercase ! rnd 1 \<in> set lowercase" "uppercase ! rnd 2 \<in> set uppercase"
    "numbers ! rnd 3 \<in> set numbers" "special ! rnd 4 \<in> set special"
    using r by (simp_all add: class_lengths)
  have up: "list_ex isUpper ?p"
    unfolding list_ex_iff using c(2) lo(2) class_members(2) by blast
  have low: "list_ex isLower ?p"
    unfolding list_ex_iff using c(2) lo(1) class_members(1) by blast
  have dig: "list_ex isDigit ?p"
    unfolding list_ex_iff using c(2) lo(3) class_members(3) by blast
  have spe: "list_ex isSpecial ?p"
    unfolding list_ex_iff using c(2) lo(4) class_members(5) by blast
  have com: "toLowerCase ?p \<notin> set (commonPasswords passwordPolicy)"
  proof
    assume a: "toLowerCase ?p \<in> set (commonPasswords passwordPolicy)"
    have "special ! rnd 4 \<in> set ?p" using c(2) by simp
    then have "lowerChar (special ! rnd 4) \<in> set (toLowerCase ?p)"
      by (simp add: toLowerCase_def)
    moreover have "isSpecial (lowerChar (special ! rnd 4))"
      using lo(4) class_members(4) by blast
    ultimately show False using a common_no_special by blast
  qed
  have ne: "?p \<noteq> []" using len(1) by auto
  have e: "errors (validate passwordPolicy ?p)
             = (if hasSimplePatterns ?p then [SimplePattern] else [])"
    using len up low dig spe com ne by (simp add: validate_def policy_fields)
  have i: "isValid (validate passwordPolicy ?p) \<longleftrightarrow> \<not> hasSimplePatterns ?p"
    using len up low dig spe com ne by (simp add: validate_def policy_fields)
  show ?thesis using len up low dig spe com e i by auto
qed

lemma zeroDraws_valid: "validDraws zeroDraws"
  by (simp add: validDraws_def zeroDraws_def class_lengths allChars_def)

theorem C9_generate_witness:
  "length (generateStrongPassword zeroDraws) = 12
   \<and> list_ex isSpecial (generateStrongPassword zeroDraws)
   \<and> set (errors (validate passwordPolicy (generateStrongPassword zeroDraws)))
       \<subseteq> {SimplePattern}"
proof -
  have "length (generateStrongPassword zeroDraws) = 12"
    using generate_content(1) [OF zeroDraws_valid] by (simp add: zeroDraws_def)
  then show ?thesis
    using C9_generate [OF zeroDraws_valid] by blast
qed

text \<open>
  C9 (as stated, refuted).  The claim says every outcome validates.  When every draw is
  0 the generator returns \<open>A0!aaaaaaaaa\<close>, which \<open>validate\<close> rejects for its
  repeated characters: nothing in the generator looks for patterns.
\<close>

theorem C9_pattern_counterexample:
  "validDraws zeroDraws
   \<and> generateStrongPassword zeroDraws = ''A0!aaaaaaaaa''
   \<and> isValid (validate passwordPolicy ''A0!aaaaaaaaa'') = False"
proof (intro conjI)
  show "validDraws zeroDraws" by (rule zeroDraws_valid)
  show "generateStrongPassword zeroDraws = ''A0!aaaaaaaaa''" by code_simp
  show "isValid (validate passwordPolicy ''A0!aaaaaaaaa'') = False" by code_simp
qed

section \<open>CSRF check\<close>










section \<open>Session token contents\<close>

lemma default_lifetime:
  "env = None \<or> env = Some [] \<Longrightarrow>
   lifetimeSeconds (expiresIn (generateToken env u)) = Some (7 * 24 * 60 * 60)"
  by (auto simp: generateToken_def JWT_EXPIRES_IN_def expiresInOption_def
      timeSpanSeconds_def isDigit_def charCode_def digitsValue_def asciiLower_def
      uppercase_def lowercase_def spanUnits_def)

lemma span_examples:
  "timeSpanSeconds ''30d'' = Some 2592000"
  "timeSpanSeconds ''2y'' = Some 63115200"
  "timeSpanSeconds ''12 Hours'' = Some 43200"
  "timeSpanSeconds ''1.5h'' = None"
  by (simp_all add: timeSpanSeconds_def isDigit_def charCode_def digitsValue_def
      asciiLower_def uppercase_def lowercase_def spanUnits_def)

text \<open>
  C8 (amended).  For every user record and every configuration, the payload that
  \<open>generateToken\<close> hands to the signing call holds the user's id, username and email
  and, when the record has one, its role; it has exactly the keys id, username, email,
  role, bio, createdAt (so no password key), and does not depend on the user's password
  field at all.  With \<open>JWT_EXPIRES_IN\<close> unset or empty the option is \<open>7d\<close> and the
  credential expires after exactly 7 days; a configured string of digits is handed over
  as that number of seconds (stated below \<open>2^52\<close>), any other configured string as it
  is.
\<close>

theorem C8_generateToken:
  "map_of (claims (generateToken env u)) ''id'' = Some (JNumber (int (id' u)))
   \<and> map_of (claims (generateToken env u)) ''username'' = Some (JString (username u))
   \<and> map_of (claims (generateToken env u)) ''email'' = Some (JString (email u))
   \<and> (role u = Some r \<longrightarrow>
        map_of (claims (generateToken env u)) ''role'' = Some (JString r))
   \<and> map fst (claims (generateToken env u))
        = [''id'', ''username'', ''email'', ''role'', ''bio'', ''createdAt'']
   \<and> ''password'' \<notin> fst ` set (claims (generateToken env u))
   \<and> generateToken env (u\<lparr>password := p\<rparr>) = generateToken env u
   \<and> (env = None \<or> env = Some [] \<longrightarrow>
        expiresIn (generateToken env u) = TimeSpan ''7d''
        \<and> lifetimeSeconds (expiresIn (generateToken env u)) = Some (7 * 24 * 60 * 60))
   \<and> (env = Some s \<and> s \<noteq> [] \<and> list_all isDigit s \<and> digitsValue s < 2 ^ 52 \<longrightarrow>
        expiresIn (generateToken env u) = Seconds (digitsValue s)
        \<and> lifetimeSeconds (expiresIn (generateToken env u)) = Some (digitsValue s))
   \<and> (env = Some s \<and> s \<noteq> [] \<and> \<not> list_all isDigit s \<longrightarrow>
        expiresIn (generateToken env u) = TimeSpan s)"
proof (intro conjI impI)
  assume "env = None \<or> env = Some []"
  then show "lifetimeSeconds (expiresIn (generateToken env u)) = Some (7 * 24 * 60 * 60)"
    by (rule default_lifetime)
next
  assume "env = None \<or> env = Some []"
  then show "expiresIn (generateToken env u) = TimeSpan ''7d''"
    by (auto simp: generateToken_def JWT_EXPIRES_IN_def expiresInOption_def isDigit_def
        charCode_def)
next
  assume a: "env = Some s \<and> s \<noteq> [] \<and> list_all isDigit s \<and> digitsValue s < 2 ^ 52"
  then have "digitsValue s \<le> 2 ^ 53" by simp
  with a show "expiresIn (generateToken env u) = Seconds (digitsValue s)"
    by (simp add: generateToken_def JWT_EXPIRES_IN_def expiresInOption_def parseInt_def)
  with a show "lifetimeSeconds (expiresIn (generateToken env u)) = Some (digitsValue s)"
    by simp
next
  assume "env = Some s \<and> s \<noteq> [] \<and> \<not> list_all isDigit s"
  then show "expiresIn (generateToken env u) = TimeSpan s"
    by (simp add: generateToken_def JWT_EXPIRES_IN_def expiresInOption_def)
qed (simp_all add: generateToken_def jwtPayload_def)

theorem C8_generateToken_witness:
  "lifetimeSeconds (expiresIn (generateToken None sampleUser)) = Some 604800
   \<and> map_of (claims (generateToken None sampleUser)) ''username'' = Some (JString ''alice'')
   \<and> map_of (claims (generateToken None sampleUser)) ''role'' = Some (JString ''user'')
   \<and> lifetimeSeconds (expiresIn (generateToken (Some ''3600'') sampleUser)) = Some 3600
   \<and> expiresIn (generateToken (Some ''12 Hours'') sampleUser) = TimeSpan ''12 Hours''"
proof -
  note th = C8_generateToken [where env=None and u=sampleUser and r="''user''"]
  have a1: "lifetimeSeconds (expiresIn (generateToken None sampleUser)) = Some (7 * 24 * 60 * 60)"
    using th by blast
  have a2: "map_of (claims (generateToken None sampleUser)) ''username''
      = Some (JString (username sampleUser))"
    using th by blast
  have "role sampleUser = Some ''user''" by (simp add: sampleUser_def)
  then have a3: "map_of (claims (generateToken None sampleUser)) ''role''
      = Some (JString ''user'')"
    using th by blast
  have a: "lifetimeSeconds (expiresIn (generateToken None sampleUser)) = Some 604800
   \<and> map_of (claims (generateToken None sampleUser)) ''username'' = Some (JString ''alice'')
   \<and> map_of (claims (generateToken None sampleUser)) ''role'' = Some (JString ''user'')"
    using a1 a2 a3 by (simp add: sampleUser_def)
  have d: "list_all isDigit ''3600''" "digitsValue ''3600'' = 3600"
    by (simp_all add: isDigit_def charCode_def digitsValue_def)
  then have "lifetimeSeconds (expiresIn (generateToken (Some ''3600'') sampleUser))
      = Some (digitsValue ''3600'')"
    using C8_generateToken [where env="Some ''3600''" and s="''3600''" and u=sampleUser]
    by auto
  then have b: "lifetimeSeconds (expiresIn (generateToken (Some ''3600'') sampleUser))
      = Some 3600"
    using d(2) by simp
  have "\<not> list_all isDigit ''12 Hours''" by (simp add: isDigit_def charCode_def)
  then have c: "expiresIn (generateToken (Some ''12 Hours'') sampleUser) = TimeSpan ''12 Hours''"
    using C8_generateToken [where env="Some ''12 Hours''" and s="''12 Hours''" and u=sampleUser]
    by blast
  show ?thesis using a b c by simp
qed

text \<open>
  C8 (as stated, refuted).  The claim bounds the expiry by 7 days.  With
  \<open>JWT_EXPIRES_IN=30d\<close> in the environment the credential lives 30 days.
\<close>

theorem C8_configured_expiry_counterexample:
  "lifetimeSeconds (expiresIn (generateToken (Some ''30d'') sampleUser)) = Some 2592000
   \<and> (7 * 24 * 60 * 60 :: nat) < 2592000"
  using span_examples(1)
  by (simp add: generateToken_def JWT_EXPIRES_IN_def expiresInOption_def isDigit_def
      charCode_def)

end
